theory Spec2Isabelle
  imports Complex_Main "HOL-Library.Word" "HOL-Library.Log_Nat" "HOL-Library.Char_ord"
    "HOL-Library.List_Lexorder"
begin

section \<open>The brokerage client of BrokerClient.hpp / BrokerClient.cpp\<close>

text \<open>
  The class \<^verbatim>\<open>BrokerClient\<close> keeps a cash balance, a portfolio
  (\<^verbatim>\<open>std::map<std::string, SecurityPosition>\<close>), a queue of outstanding buy orders per
  security and a vector of processed transactions. Its only mutating operation is
  \<^verbatim>\<open>SubmitOrder\<close>, which dispatches to the private \<^verbatim>\<open>HandleBuy\<close> and
  \<^verbatim>\<open>HandleSell\<close>.

  Modelling decisions:
  \<^item> \<^verbatim>\<open>uint32_t\<close> is \<open>32 word\<close>: addition and subtraction wrap around, comparison is
    unsigned.
  \<^item> \<^verbatim>\<open>double\<close> is the type \<open>double\<close> below: a real number or one of the IEEE 754
    special values. Every arithmetic operation computes the exact result and rounds it to
    the nearest binary64 number, ties to even (\<open>round64\<close>), as an IEC 559 implementation
    does; a division by zero yields an infinity or NaN, and there are two zeros, one of
    each sign.
  \<^item> \<^verbatim>\<open>std::map\<close> is an association list kept in ascending key order, the order in
    which the map is iterated; \<^verbatim>\<open>std::string\<close> keys compare lexicographically by
    character code.
  \<^item> \<^verbatim>\<open>std::queue\<close> and \<^verbatim>\<open>std::vector\<close> are lists, oldest element first.
  \<^item> the two places where the C++ has undefined behaviour (converting a double that is out
    of range to \<^verbatim>\<open>uint32_t\<close>, calling \<^verbatim>\<open>front()\<close> on an empty queue) are values of
    the type \<open>fault\<close>.
\<close>

subsection \<open>Doubles\<close>

datatype double = Finite real | NegZero | PosInf | NegInf | NaN

text \<open>
  \<open>Finite 0\<close> is the zero with the positive sign, \<open>NegZero\<close> the zero with the negative
  sign; \<open>Finite x\<close> with \<open>x\<close> other than 0 carries the sign of \<open>x\<close>.
\<close>

definition signed_inf :: "bool \<Rightarrow> double" where
  "signed_inf positive = (if positive then PosInf else NegInf)"

definition signed_zero :: "bool \<Rightarrow> double" where
  "signed_zero negative = (if negative then NegZero else Finite 0)"

text \<open>
  Rounding to binary64. A number \<open>x\<close> other than 0 lies in the binade
  \<open>2 ^ e \<le> \<bar>x\<bar> < 2 ^ (e + 1)\<close>; with 53 significant bits the representable numbers
  there are the multiples of \<open>2 ^ (e - 52)\<close>. Below \<open>2 ^ - 1022\<close> (the subnormal range)
  they are the multiples of \<open>2 ^ - 1074\<close>. The exact value is rounded to the nearest
  multiple, to the even one when it lies halfway; a result of magnitude \<open>2 ^ 1024\<close>
  or more overflows to an infinity, and a result rounded to 0 keeps the sign of the exact
  value. An exact value of 0 is passed as the positive zero: the operations below give
  the sign of an exact zero themselves.
\<close>

definition pow2 :: "int \<Rightarrow> real" where
  "pow2 e = (if 0 \<le> e then 2 ^ nat e else 1 / 2 ^ nat (- e))"

definition binade :: "real \<Rightarrow> int" where
  "binade x =
     (if 1 \<le> \<bar>x\<bar> then bitlen \<lfloor>\<bar>x\<bar>\<rfloor> - 1 else - bitlen (\<lceil>1 / \<bar>x\<bar>\<rceil> - 1))"

definition round_half_even :: "real \<Rightarrow> int" where
  "round_half_even z =
     (let f = \<lfloor>z\<rfloor>; d = z - of_int f
      in if d < 1 / 2 then f else if 1 / 2 < d then f + 1 else if even f then f else f + 1)"

definition round64 :: "real \<Rightarrow> double" where
  "round64 x =
     (if x = 0 then Finite 0
      else let e = max (binade x) (- 1022) - 52;
               y = of_int (round_half_even (x / pow2 e)) * pow2 e
           in if 2 ^ 1024 \<le> \<bar>y\<bar> then signed_inf (0 < x)
              else if y = 0 then signed_zero (x < 0)
              else Finite y)"

text \<open>A value of the model that is a value of the C++ type: rounding leaves it alone.\<close>

definition is_double :: "double \<Rightarrow> bool" where
  "is_double d = (case d of Finite x \<Rightarrow> round64 x = Finite x | _ \<Rightarrow> True)"

text \<open>
  The operations of IEEE 754 in the default rounding mode. A sum that is exactly 0 is the
  negative zero only when both operands are; a product or quotient that is exactly 0, or
  infinite, has the sign that the signs of the operands give.
\<close>

fun dneg :: "double \<Rightarrow> double" where
  "dneg (Finite a) = (if a = 0 then NegZero else Finite (- a))"
| "dneg NegZero = Finite 0"
| "dneg PosInf = NegInf"
| "dneg NegInf = PosInf"
| "dneg NaN = NaN"

fun dadd :: "double \<Rightarrow> double \<Rightarrow> double" where
  "dadd (Finite a) (Finite b) = round64 (a + b)"
| "dadd NegZero NegZero = NegZero"
| "dadd NegZero (Finite b) = round64 b"
| "dadd (Finite a) NegZero = round64 a"
| "dadd NaN _ = NaN"
| "dadd _ NaN = NaN"
| "dadd PosInf NegInf = NaN"
| "dadd NegInf PosInf = NaN"
| "dadd PosInf _ = PosInf"
| "dadd _ PosInf = PosInf"
| "dadd NegInf _ = NegInf"
| "dadd _ NegInf = NegInf"

definition dsub :: "double \<Rightarrow> double \<Rightarrow> double" where
  "dsub a b = dadd a (dneg b)"

fun dmul :: "double \<Rightarrow> double \<Rightarrow> double" where
  "dmul (Finite a) (Finite b) =
     (if a * b = 0 then signed_zero ((a < 0) \<noteq> (b < 0)) else round64 (a * b))"
| "dmul NegZero (Finite b) = signed_zero (\<not> b < 0)"
| "dmul (Finite a) NegZero = signed_zero (\<not> a < 0)"
| "dmul NegZero NegZero = Finite 0"
| "dmul NaN _ = NaN"
| "dmul _ NaN = NaN"
| "dmul PosInf (Finite b) = (if b = 0 then NaN else signed_inf (0 < b))"
| "dmul NegInf (Finite b) = (if b = 0 then NaN else signed_inf (b < 0))"
| "dmul (Finite a) PosInf = (if a = 0 then NaN else signed_inf (0 < a))"
| "dmul (Finite a) NegInf = (if a = 0 then NaN else signed_inf (a < 0))"
| "dmul PosInf NegZero = NaN"
| "dmul NegInf NegZero = NaN"
| "dmul NegZero PosInf = NaN"
| "dmul NegZero NegInf = NaN"
| "dmul PosInf PosInf = PosInf"
| "dmul NegInf NegInf = PosInf"
| "dmul PosInf NegInf = NegInf"
| "dmul NegInf PosInf = NegInf"

fun ddiv :: "double \<Rightarrow> double \<Rightarrow> double" where
  "ddiv (Finite a) (Finite b) =
     (if b \<noteq> 0 then (if a = 0 then signed_zero (b < 0) else round64 (a / b))
      else if 0 < a then PosInf
      else if a < 0 then NegInf
      else NaN)"
| "ddiv (Finite a) NegZero =
     (if 0 < a then NegInf
      else if a < 0 then PosInf
      else NaN)"
| "ddiv NegZero (Finite b) = (if b = 0 then NaN else signed_zero (0 < b))"
| "ddiv NegZero NegZero = NaN"
| "ddiv NaN _ = NaN"
| "ddiv _ NaN = NaN"
| "ddiv (Finite a) PosInf = signed_zero (a < 0)"
| "ddiv (Finite a) NegInf = signed_zero (\<not> a < 0)"
| "ddiv NegZero PosInf = NegZero"
| "ddiv NegZero NegInf = Finite 0"
| "ddiv PosInf (Finite b) = signed_inf (0 \<le> b)"
| "ddiv NegInf (Finite b) = signed_inf (b < 0)"
| "ddiv PosInf NegZero = NegInf"
| "ddiv NegInf NegZero = PosInf"
| "ddiv PosInf PosInf = NaN"
| "ddiv PosInf NegInf = NaN"
| "ddiv NegInf PosInf = NaN"
| "ddiv NegInf NegInf = NaN"

text \<open>
  The operator \<^verbatim>\<open><\<close> on doubles: false whenever an operand is NaN, and the two zeros
  compare equal.
\<close>

fun dless :: "double \<Rightarrow> double \<Rightarrow> bool" where
  "dless (Finite a) (Finite b) = (a < b)"
| "dless NegZero (Finite b) = (0 < b)"
| "dless (Finite a) NegZero = (a < 0)"
| "dless NegZero NegZero = False"
| "dless NaN _ = False"
| "dless _ NaN = False"
| "dless NegInf b = (b \<noteq> NegInf)"
| "dless a PosInf = (a \<noteq> PosInf)"
| "dless PosInf (Finite b) = False"
| "dless PosInf NegZero = False"
| "dless PosInf NegInf = False"
| "dless (Finite a) NegInf = False"
| "dless NegZero NegInf = False"

text \<open>\<^verbatim>\<open>std::min(a, b)\<close> is \<^verbatim>\<open>(b < a) ? b : a\<close>.\<close>

definition std_min :: "double \<Rightarrow> double \<Rightarrow> double" where
  "std_min a b = (if dless b a then b else a)"

datatype fault = UndefinedConversion | EmptyQueueFront

text \<open>The conversion \<^verbatim>\<open>(double)q\<close> of a \<^verbatim>\<open>uint32_t\<close>, which is exact.\<close>

definition of_u32 :: "32 word \<Rightarrow> double" where
  "of_u32 q = Finite (real (unat q))"

text \<open>
  The implicit conversion of a double to \<^verbatim>\<open>uint32_t\<close>: the value is truncated towards
  zero, and the behaviour is undefined when the truncated value is not representable.
\<close>

fun to_u32 :: "double \<Rightarrow> fault + 32 word" where
  "to_u32 (Finite r) =
     (let t = (if 0 \<le> r then \<lfloor>r\<rfloor> else \<lceil>r\<rceil>)
      in if 0 \<le> t \<and> t < 2 ^ 32 then Inr (word_of_int t) else Inl UndefinedConversion)"
| "to_u32 NegZero = Inr 0"
| "to_u32 _ = Inl UndefinedConversion"

subsection \<open>The ordered map\<close>

text \<open>
  \<^verbatim>\<open>find\<close> is \<^const>\<open>map_of\<close>. \<^verbatim>\<open>insert\<close> keeps the key order and leaves an existing
  entry alone; \<open>map_assign\<close> is a write through the reference that \<^verbatim>\<open>operator[]\<close>
  returned; \<open>map_subscript\<close> is the map after \<^verbatim>\<open>operator[]\<close>, which inserts a
  value-initialised entry for a missing key, and \<open>map_at\<close> the entry it refers to.
\<close>

fun map_insert :: "'k::linorder \<Rightarrow> 'v \<Rightarrow> ('k \<times> 'v) list \<Rightarrow> ('k \<times> 'v) list" where
  "map_insert k v [] = [(k, v)]"
| "map_insert k v (e # es) =
     (if k < fst e then (k, v) # e # es
      else if k = fst e then e # es
      else e # map_insert k v es)"

definition map_assign :: "'k \<Rightarrow> 'v \<Rightarrow> ('k \<times> 'v) list \<Rightarrow> ('k \<times> 'v) list" where
  "map_assign k v es = map (\<lambda>e. if fst e = k then (k, v) else e) es"

definition map_erase :: "'k \<Rightarrow> ('k \<times> 'v) list \<Rightarrow> ('k \<times> 'v) list" where
  "map_erase k es = filter (\<lambda>e. fst e \<noteq> k) es"

definition map_subscript :: "'k::linorder \<Rightarrow> 'v \<Rightarrow> ('k \<times> 'v) list \<Rightarrow> ('k \<times> 'v) list" where
  "map_subscript k dflt es = (case map_of es k of None \<Rightarrow> map_insert k dflt es | Some _ \<Rightarrow> es)"

definition map_at :: "('k \<times> 'v) list \<Rightarrow> 'k \<Rightarrow> 'v \<Rightarrow> 'v" where
  "map_at es k dflt = (case map_of es k of None \<Rightarrow> dflt | Some v \<Rightarrow> v)"

subsection \<open>Orders, positions and the client's state\<close>

datatype OrderKind = Buy | Sell

record SecurityPosition =
  name :: string
  quantity :: "32 word"
  price :: double

record Order =
  kind :: OrderKind
  position :: SecurityPosition

record BrokerClient =
  cashBalance :: double
  portfolio :: "(string \<times> SecurityPosition) list"
  transactions :: "Order list"
  outstandingBuyOrderMap :: "(string \<times> Order list) list"

text \<open>The constructor: the given cash balance and empty containers.\<close>

definition new_BrokerClient :: "double \<Rightarrow> BrokerClient" where
  "new_BrokerClient c =
     \<lparr>cashBalance = c, portfolio = [], transactions = [], outstandingBuyOrderMap = []\<rparr>"

text \<open>A value-initialised \<^verbatim>\<open>SecurityPosition\<close>, what \<^verbatim>\<open>operator[]\<close> inserts.\<close>

definition default_position :: SecurityPosition where
  "default_position = \<lparr>name = [], quantity = 0, price = Finite 0\<rparr>"

definition GetCashBalance :: "BrokerClient \<Rightarrow> double" where
  "GetCashBalance st = cashBalance st"

definition GetTransactions :: "BrokerClient \<Rightarrow> Order list" where
  "GetTransactions st = transactions st"

definition GetPositions :: "BrokerClient \<Rightarrow> SecurityPosition list" where
  "GetPositions st = map snd (portfolio st)"

subsection \<open>HandleBuy\<close>

text \<open>
  The weighted average of lines 76 to 79: both products are doubles, the sum of the two
  quantities is computed in \<^verbatim>\<open>uint32_t\<close> before it is converted.
\<close>

definition weightedPrice :: "SecurityPosition \<Rightarrow> SecurityPosition \<Rightarrow> double" where
  "weightedPrice ordered held =
     ddiv (dadd (dmul (of_u32 (quantity ordered)) (price ordered))
                (dmul (of_u32 (quantity held)) (price held)))
          (of_u32 (quantity ordered + quantity held))"

definition HandleBuy :: "BrokerClient \<Rightarrow> Order \<Rightarrow> BrokerClient" where
  "HandleBuy st order =
     (let nm = name (position order);
          portfolio' =
            (case map_of (portfolio st) nm of
               Some held \<Rightarrow>
                 map_assign nm
                   (held\<lparr>quantity := quantity held + quantity (position order),
                         price := weightedPrice (position order) held\<rparr>)
                   (portfolio st)
             | None \<Rightarrow> map_insert nm (position order) (portfolio st));
          queues =
            (if map_of (outstandingBuyOrderMap st) nm = None
             then map_insert nm [] (outstandingBuyOrderMap st)
             else outstandingBuyOrderMap st);
          queues' = map_assign nm (map_at queues nm [] @ [order]) (map_subscript nm [] queues)
      in st\<lparr>cashBalance :=
               dsub (cashBalance st)
                    (dmul (price (position order)) (of_u32 (quantity (position order)))),
            portfolio := portfolio',
            transactions := transactions st @ [order],
            outstandingBuyOrderMap := queues'\<rparr>)"

subsection \<open>HandleSell\<close>

text \<open>
  The loop of lines 116 to 132 over the queue of outstanding buy orders. It returns the
  value removed and the queue that is left. Its second branch sets
  \<^verbatim>\<open>buyQuantityRemoved\<close> to the quantity sold, which ends the loop.
\<close>

fun HandleSell_loop ::
  "32 word \<Rightarrow> 32 word \<Rightarrow> double \<Rightarrow> Order list \<Rightarrow> fault + (double \<times> Order list)" where
  "HandleSell_loop sold buyQuantityRemoved buyValueRemoved [] =
     (if buyQuantityRemoved < sold then Inl EmptyQueueFront
      else Inr (buyValueRemoved, []))"
| "HandleSell_loop sold buyQuantityRemoved buyValueRemoved (buyOrder # rest) =
     (if buyQuantityRemoved < sold then
        (if sold - buyQuantityRemoved \<ge> quantity (position buyOrder) then
           HandleSell_loop sold
             (buyQuantityRemoved + quantity (position buyOrder))
             (dadd buyValueRemoved
                (dmul (of_u32 (quantity (position buyOrder))) (price (position buyOrder))))
             rest
         else
           Inr (dadd buyValueRemoved
                  (dmul (of_u32 (sold - buyQuantityRemoved)) (price (position buyOrder))),
                buyOrder\<lparr>position := (position buyOrder)
                   \<lparr>quantity := quantity (position buyOrder) - (sold - buyQuantityRemoved)\<rparr>\<rparr>
                # rest))
      else Inr (buyValueRemoved, buyOrder # rest))"

text \<open>The divisor of line 143, and the position as lines 141 to 144 leave it.\<close>

definition HandleSell_divisor :: "SecurityPosition \<Rightarrow> Order \<Rightarrow> double" where
  "HandleSell_divisor held order = of_u32 (quantity held - quantity (position order))"

definition HandleSell_reprice :: "SecurityPosition \<Rightarrow> Order \<Rightarrow> double \<Rightarrow> SecurityPosition" where
  "HandleSell_reprice held order buyValueRemoved =
     held\<lparr>price :=
            ddiv (dsub (dmul (price held) (of_u32 (quantity held))) buyValueRemoved)
                 (HandleSell_divisor held order),
          quantity := quantity held - quantity (position order)\<rparr>"

definition HandleSell :: "BrokerClient \<Rightarrow> Order \<Rightarrow> fault + BrokerClient" where
  "HandleSell st order =
     (let nm = name (position order);
          queues = map_subscript nm [] (outstandingBuyOrderMap st)
      in case HandleSell_loop (quantity (position order)) 0 (Finite 0) (map_at queues nm []) of
           Inl e \<Rightarrow> Inl e
         | Inr (buyValueRemoved, buyOrderQueue) \<Rightarrow>
             (let entries = map_subscript nm default_position (portfolio st);
                  repriced =
                    HandleSell_reprice (map_at entries nm default_position) order buyValueRemoved;
                  portfolio' =
                    (if quantity repriced = 0 then map_erase nm entries
                     else map_assign nm repriced entries)
              in Inr (st\<lparr>cashBalance :=
                           dadd (cashBalance st)
                                (dmul (price (position order))
                                      (of_u32 (quantity (position order)))),
                        portfolio := portfolio',
                        transactions := transactions st @ [order],
                        outstandingBuyOrderMap := map_assign nm buyOrderQueue queues\<rparr>)))"

subsection \<open>SubmitOrder\<close>

text \<open>The order that is handed to \<^verbatim>\<open>HandleBuy\<close> or \<^verbatim>\<open>HandleSell\<close>.\<close>

definition completedOrder :: "Order \<Rightarrow> 32 word \<Rightarrow> Order" where
  "completedOrder order quantityTransacted =
     \<lparr>kind = kind order,
      position = \<lparr>name = name (position order), quantity = quantityTransacted,
                  price = price (position order)\<rparr>\<rparr>"

definition SubmitOrder :: "BrokerClient \<Rightarrow> Order \<Rightarrow> fault + (32 word \<times> BrokerClient)" where
  "SubmitOrder st order =
     (case kind order of
        Buy \<Rightarrow>
          (case to_u32 (std_min (of_u32 (quantity (position order)))
                                (ddiv (GetCashBalance st) (price (position order)))) of
             Inl e \<Rightarrow> Inl e
           | Inr quantityTransacted \<Rightarrow>
               if quantityTransacted = 0 then Inr (0, st)
               else Inr (quantityTransacted,
                         HandleBuy st (completedOrder order quantityTransacted)))
      | Sell \<Rightarrow>
          (case map_of (portfolio st) (name (position order)) of
             None \<Rightarrow> Inr (0, st)
           | Some held \<Rightarrow>
               (let quantityTransacted = min (quantity (position order)) (quantity held)
                in case HandleSell st (completedOrder order quantityTransacted) of
                     Inl e \<Rightarrow> Inl e
                   | Inr st' \<Rightarrow> Inr (quantityTransacted, st'))))"

text \<open>A sequence of calls; it stops at the first call whose behaviour is undefined.\<close>

fun SubmitOrders :: "BrokerClient \<Rightarrow> Order list \<Rightarrow> fault + BrokerClient" where
  "SubmitOrders st [] = Inr st"
| "SubmitOrders st (order # orders) =
     (case SubmitOrder st order of
        Inl e \<Rightarrow> Inl e
      | Inr (n, st') \<Rightarrow> SubmitOrders st' orders)"

text \<open>The states a client can be in: constructed, then any number of calls that returned.\<close>

inductive reachable :: "BrokerClient \<Rightarrow> bool" where
  constructed: "reachable (new_BrokerClient c)"
| submitted: "reachable st \<Longrightarrow> SubmitOrder st order = Inr (n, st') \<Longrightarrow> reachable st'"

text \<open>Shorthand for the orders of the examples.\<close>

definition mkOrder :: "OrderKind \<Rightarrow> string \<Rightarrow> 32 word \<Rightarrow> double \<Rightarrow> Order" where
  "mkOrder k nm q p = \<lparr>kind = k, position = \<lparr>name = nm, quantity = q, price = p\<rparr>\<rparr>"

subsection \<open>What the properties speak about\<close>

text \<open>The quantity held of a security: that of its portfolio entry, 0 without one.\<close>

definition heldQuantity :: "BrokerClient \<Rightarrow> string \<Rightarrow> 32 word" where
  "heldQuantity st nm = (case map_of (portfolio st) nm of None \<Rightarrow> 0 | Some held \<Rightarrow> quantity held)"

text \<open>The outstanding buy orders of a security, and the sum of their quantities.\<close>

definition buyLots :: "BrokerClient \<Rightarrow> string \<Rightarrow> Order list" where
  "buyLots st nm = map_at (outstandingBuyOrderMap st) nm []"

definition lotTotal :: "Order list \<Rightarrow> nat" where
  "lotTotal lots = sum_list (map (\<lambda>lot. unat (quantity (position lot))) lots)"

text \<open>
  The quantity held agrees with the outstanding buy orders up to the width of
  \<^verbatim>\<open>uint32_t\<close>: it is their sum modulo \<open>2 ^ 32\<close>.
\<close>

definition consistent :: "BrokerClient \<Rightarrow> bool" where
  "consistent st = (\<forall>nm. heldQuantity st nm = of_nat (lotTotal (buyLots st nm)))"

text \<open>
  The portfolio is in ascending key order, without duplicates, and every entry is filed
  under its own name.
\<close>

definition keyed_in_order :: "BrokerClient \<Rightarrow> bool" where
  "keyed_in_order st =
     (sorted_wrt (<) (map fst (portfolio st)) \<and> (\<forall>e \<in> set (portfolio st). name (snd e) = fst e))"

text \<open>
  Two states for the examples: a client constructed with 10000 that bought 10 AAPL at 100,
  and one that bought 3 MSFT at 200 and then 10 AAPL at 100.
\<close>

definition holding_AAPL :: BrokerClient where
  "holding_AAPL =
     \<lparr>cashBalance = Finite 9000,
      portfolio = [(''AAPL'', \<lparr>name = ''AAPL'', quantity = 10, price = Finite 100\<rparr>)],
      transactions = [mkOrder Buy ''AAPL'' 10 (Finite 100)],
      outstandingBuyOrderMap = [(''AAPL'', [mkOrder Buy ''AAPL'' 10 (Finite 100)])]\<rparr>"

definition holding_two :: BrokerClient where
  "holding_two =
     \<lparr>cashBalance = Finite 8400,
      portfolio = [(''AAPL'', \<lparr>name = ''AAPL'', quantity = 10, price = Finite 100\<rparr>),
                   (''MSFT'', \<lparr>name = ''MSFT'', quantity = 3, price = Finite 200\<rparr>)],
      transactions = [mkOrder Buy ''MSFT'' 3 (Finite 200), mkOrder Buy ''AAPL'' 10 (Finite 100)],
      outstandingBuyOrderMap = [(''AAPL'', [mkOrder Buy ''AAPL'' 10 (Finite 100)]),
                                (''MSFT'', [mkOrder Buy ''MSFT'' 3 (Finite 200)])]\<rparr>"

text \<open>The position of each entry, as a pair of price and quantity.\<close>

definition priceAndQuantity :: "fault + BrokerClient \<Rightarrow> (double \<times> 32 word) list" where
  "priceAndQuantity r =
     (case r of Inl e \<Rightarrow> [] | Inr st \<Rightarrow> map (\<lambda>p. (price p, quantity p)) (GetPositions st))"

section \<open>Evaluation\<close>

lemmas round64_defs =
  round64_def binade_def round_half_even_def pow2_def signed_inf_def signed_zero_def
  compute_bitlen

lemmas client_defs =
  SubmitOrder_def HandleBuy_def HandleSell_def completedOrder_def mkOrder_def
  new_BrokerClient_def GetCashBalance_def GetTransactions_def GetPositions_def
  std_min_def of_u32_def dsub_def round64_defs weightedPrice_def
  HandleSell_reprice_def HandleSell_divisor_def default_position_def
  map_assign_def map_erase_def map_subscript_def map_at_def Let_def

section \<open>Lemmas about the model\<close>

lemma signed_zero_simps [simp]: "signed_zero False = Finite 0" "signed_zero True = NegZero"
  by (simp_all add: signed_zero_def)

lemma map_of_map_insert:
  "map_of es k = None \<Longrightarrow> map_of (map_insert k v es) k' = (if k' = k then Some v else map_of es k')"
  by (induction es) (auto split: if_splits)

lemma map_of_map_assign:
  "map_of (map_assign k v es) k' = (if k' = k \<and> map_of es k \<noteq> None then Some v else map_of es k')"
  by (induction es) (auto simp: map_assign_def)

lemma map_of_map_erase:
  "map_of (map_erase k es) k' = (if k' = k then None else map_of es k')"
  by (induction es) (auto simp: map_erase_def)

lemma map_of_map_subscript:
  "map_of (map_subscript k d es) k' = (if k' = k \<and> map_of es k = None then Some d else map_of es k')"
  by (auto simp: map_subscript_def map_of_map_insert split: option.splits)

lemma lotTotal_Nil: "lotTotal [] = 0" by (simp add: lotTotal_def)
lemma lotTotal_Cons: "lotTotal (b # bs) = unat (quantity (position b)) + lotTotal bs" by (simp add: lotTotal_def)
lemma lotTotal_append: "lotTotal (as @ bs) = lotTotal as + lotTotal bs" by (simp add: lotTotal_def)

lemma HandleSell_loop_total:
  "removed \<le> sold \<Longrightarrow> unat sold \<le> unat removed + lotTotal queue \<Longrightarrow>
   \<exists>v rest. HandleSell_loop sold removed val queue = Inr (v, rest) \<and>
      lotTotal rest + unat sold = lotTotal queue + unat removed"
proof (induction queue arbitrary: removed val)
  case Nil
  then show ?case by (simp add: lotTotal_Nil word_le_nat_alt word_less_nat_alt)
next
  case (Cons b bs)
  show ?case
  proof (cases "removed < sold")
    case False
    with Cons.prems show ?thesis by (simp add: word_le_nat_alt word_less_nat_alt)
  next
    case True
    note lt = this
    have sub: "unat (sold - removed) = unat sold - unat removed"
      using Cons.prems(1) by (simp add: unat_sub)
    show ?thesis
    proof (cases "quantity (position b) \<le> sold - removed")
      case True
      then have le: "unat (quantity (position b)) \<le> unat sold - unat removed"
        using sub by (simp add: word_le_nat_alt)
      have lts: "unat removed \<le> unat sold" using Cons.prems(1) by (simp add: word_le_nat_alt)
      have "unat sold < 2 ^ 32" using unsigned_less [of sold, where 'a=nat] by simp
      with le lts have add: "unat (removed + quantity (position b)) = unat removed + unat (quantity (position b))"
        by (simp add: unat_add_lem [THEN iffD1])
      have 1: "removed + quantity (position b) \<le> sold"
        using le lts add by (simp add: word_le_nat_alt)
      have 2: "unat sold \<le> unat (removed + quantity (position b)) + lotTotal bs"
        using Cons.prems(2) add by (simp add: lotTotal_Cons)
      from Cons.IH [OF 1 2] obtain v rest where
        "HandleSell_loop sold (removed + quantity (position b))
           (dadd val (dmul (of_u32 (quantity (position b))) (price (position b)))) bs = Inr (v, rest)"
        "lotTotal rest + unat sold = lotTotal bs + unat (removed + quantity (position b))"
        by blast
      with lt True add show ?thesis
        by (simp add: lotTotal_Cons)
    next
      case False
      then have gt: "unat sold - unat removed < unat (quantity (position b))"
        using sub by (simp add: word_le_nat_alt not_le)
      then have "unat (quantity (position b) - (sold - removed)) = unat (quantity (position b)) - (unat sold - unat removed)"
        using sub by (simp add: unat_sub word_le_nat_alt)
      with lt False gt Cons.prems show ?thesis
        by (auto simp: lotTotal_Cons word_le_nat_alt word_less_nat_alt)
    qed
  qed
qed


lemma map_at_map_assign:
  "map_at (map_assign k v es) k' d = (if k' = k \<and> map_of es k \<noteq> None then v else map_at es k' d)"
  by (auto simp: map_at_def map_of_map_assign)

lemma map_at_map_subscript:
  "map_at (map_subscript k d es) k' d = map_at es k' d"
  by (auto simp: map_at_def map_of_map_subscript split: option.splits)

lemma HandleBuy_cash:
  "cashBalance (HandleBuy st order) =
     dsub (cashBalance st) (dmul (price (position order)) (of_u32 (quantity (position order))))"
  by (simp add: HandleBuy_def Let_def)

lemma HandleBuy_transactions:
  "transactions (HandleBuy st order) = transactions st @ [order]"
  by (simp add: HandleBuy_def Let_def)

lemma HandleBuy_portfolio:
  "map_of (portfolio (HandleBuy st order)) nm =
     (if nm = name (position order) then
        (case map_of (portfolio st) nm of
           None \<Rightarrow> Some (position order)
         | Some held \<Rightarrow> Some (held\<lparr>quantity := quantity held + quantity (position order),
                                   price := weightedPrice (position order) held\<rparr>))
      else map_of (portfolio st) nm)"
  by (simp add: HandleBuy_def Let_def map_of_map_insert map_of_map_assign split: option.splits)

lemma HandleBuy_held:
  "heldQuantity (HandleBuy st order) nm =
     (if nm = name (position order) then heldQuantity st nm + quantity (position order)
      else heldQuantity st nm)"
  by (simp add: heldQuantity_def HandleBuy_portfolio split: option.splits)

lemma HandleBuy_lots:
  "buyLots (HandleBuy st order) nm =
     (if nm = name (position order) then buyLots st nm @ [order] else buyLots st nm)"
  by (auto simp: buyLots_def HandleBuy_def Let_def map_at_def map_of_map_insert map_of_map_assign
        map_of_map_subscript split: option.splits)

lemma HandleBuy_consistent:
  "consistent st \<Longrightarrow> consistent (HandleBuy st order)"
  by (simp add: consistent_def HandleBuy_held HandleBuy_lots lotTotal_append lotTotal_Cons lotTotal_Nil)

lemma HandleSell_effect:
  assumes held: "map_of (portfolio st) (name (position order)) = Some held"
    and le: "quantity (position order) \<le> quantity held"
    and lots: "unat (quantity (position order)) \<le> lotTotal (buyLots st (name (position order)))"
  shows "\<exists>st' v. HandleSell st order = Inr st' \<and>
      cashBalance st' = dadd (cashBalance st)
         (dmul (price (position order)) (of_u32 (quantity (position order)))) \<and>
      transactions st' = transactions st @ [order] \<and>
      (\<forall>nm. map_of (portfolio st') nm =
         (if nm = name (position order) then
            (if quantity held = quantity (position order) then None
             else Some (HandleSell_reprice held order v))
          else map_of (portfolio st) nm)) \<and>
      lotTotal (buyLots st' (name (position order))) + unat (quantity (position order)) =
         lotTotal (buyLots st (name (position order))) \<and>
      (\<forall>nm. nm \<noteq> name (position order) \<longrightarrow> buyLots st' nm = buyLots st nm)"
proof -
  let ?nm = "name (position order)"
  let ?queues = "map_subscript ?nm [] (outstandingBuyOrderMap st)"
  have q: "map_at ?queues ?nm [] = buyLots st ?nm"
    by (simp add: buyLots_def map_at_def map_of_map_subscript split: option.splits)
  from HandleSell_loop_total [of 0 "quantity (position order)" "buyLots st ?nm" "Finite 0"] lots
  obtain v rest where loop:
    "HandleSell_loop (quantity (position order)) 0 (Finite 0) (buyLots st ?nm) = Inr (v, rest)"
    and total: "lotTotal rest + unat (quantity (position order)) = lotTotal (buyLots st ?nm)"
    by auto
  have z: "quantity (HandleSell_reprice held order v) = 0 \<longleftrightarrow> quantity held = quantity (position order)"
    by (simp add: HandleSell_reprice_def)
  have present: "map_of ?queues ?nm \<noteq> None"
    by (simp add: map_of_map_subscript)
  show ?thesis
    using held loop total z present
    by (auto simp: HandleSell_def Let_def q map_subscript_def [of _ default_position] map_at_def [of "portfolio st"]
         map_of_map_erase map_of_map_assign buyLots_def map_at_map_assign map_at_map_subscript)
qed


lemma to_u32_of_u32: "to_u32 (of_u32 w) = Inr w"
proof -
  have a: "\<lfloor>real (unat w)\<rfloor> = int (unat w)" by (rule floor_of_nat)
  have b: "int (unat w) < 2 ^ 32" using unsigned_less [of w, where 'a = int] by simp
  have c: "(word_of_int (int (unat w)) :: 32 word) = w" by simp
  have d: "0 \<le> real (unat w)" "0 \<le> int (unat w)" by (rule of_nat_0_le_iff)+
  show ?thesis
    unfolding of_u32_def to_u32.simps Let_def a by (simp only: d b c if_True simp_thms)
qed

lemma fill_zero_price:
  assumes "\<not> dless cash (Finite 0)"
  shows "to_u32 (std_min (of_u32 w) (ddiv cash (Finite 0))) = Inr w"
proof -
  have "\<not> dless (ddiv cash (Finite 0)) (of_u32 w)"
    using assms by (cases cash) (simp_all add: of_u32_def signed_inf_def)
  then have "std_min (of_u32 w) (ddiv cash (Finite 0)) = of_u32 w"
    by (simp add: std_min_def)
  then show ?thesis by (simp only: to_u32_of_u32)
qed

lemma free_cost: "dmul (Finite 0) (of_u32 w) = Finite 0"
  by (simp add: of_u32_def del: of_nat_unat)

lemma dsub_zero:
  assumes "is_double d"
  shows "dsub d (Finite 0) = d"
  using assms by (cases d) (simp_all add: dsub_def is_double_def)

lemma SubmitOrder_Buy:
  assumes "kind order = Buy"
    and "to_u32 (std_min (of_u32 (quantity (position order)))
                         (ddiv (cashBalance st) (price (position order)))) = Inr q"
  shows "SubmitOrder st order =
           Inr (q, if q = 0 then st else HandleBuy st (completedOrder order q))"
  using assms by (simp add: SubmitOrder_def GetCashBalance_def)

lemma unat_of_nat_le: "unat (of_nat n :: 32 word) \<le> n"
  by (simp add: unat_of_nat)

lemma SubmitOrder_Sell:
  assumes con: "consistent st" and k: "kind order = Sell"
    and held: "map_of (portfolio st) (name (position order)) = Some held"
  shows "\<exists>st' v. SubmitOrder st order = Inr (min (quantity (position order)) (quantity held), st') \<and>
      cashBalance st' = dadd (cashBalance st)
         (dmul (price (position order)) (of_u32 (min (quantity (position order)) (quantity held)))) \<and>
      transactions st' = transactions st @
         [completedOrder order (min (quantity (position order)) (quantity held))] \<and>
      (\<forall>nm. map_of (portfolio st') nm =
         (if nm = name (position order) then
            (if quantity held \<le> quantity (position order) then None
             else Some (HandleSell_reprice held
                    (completedOrder order (min (quantity (position order)) (quantity held))) v))
          else map_of (portfolio st) nm)) \<and>
      consistent st'"
proof -
  let ?q = "min (quantity (position order)) (quantity held)"
  let ?o = "completedOrder order ?q"
  let ?nm = "name (position order)"
  have nm: "name (position ?o) = ?nm" and qo: "quantity (position ?o) = ?q"
    and po: "price (position ?o) = price (position order)"
    by (simp_all add: completedOrder_def)
  have hq: "heldQuantity st ?nm = quantity held"
    using held by (simp add: heldQuantity_def)
  then have eq: "quantity held = of_nat (lotTotal (buyLots st ?nm))"
    using con by (simp add: consistent_def)
  have "unat ?q \<le> unat (quantity held)" by (simp add: word_le_nat_alt [symmetric])
  also have "\<dots> \<le> lotTotal (buyLots st ?nm)" by (subst eq) (rule unat_of_nat_le)
  finally have lots: "unat (quantity (position ?o)) \<le> lotTotal (buyLots st (name (position ?o)))"
    by (simp add: nm qo)
  have le: "quantity (position ?o) \<le> quantity held" by (simp add: qo)
  have held': "map_of (portfolio st) (name (position ?o)) = Some held" using held by (simp add: nm)
  from HandleSell_effect [OF held' le lots] obtain st' v where
    hs: "HandleSell st ?o = Inr st'"
    and cash: "cashBalance st' = dadd (cashBalance st) (dmul (price (position order)) (of_u32 ?q))"
    and tr: "transactions st' = transactions st @ [?o]"
    and pf: "\<And>nm. map_of (portfolio st') nm =
         (if nm = ?nm then (if quantity held = ?q then None else Some (HandleSell_reprice held ?o v))
          else map_of (portfolio st) nm)"
    and tot: "lotTotal (buyLots st' ?nm) + unat ?q = lotTotal (buyLots st ?nm)"
    and others: "\<And>nm. nm \<noteq> ?nm \<Longrightarrow> buyLots st' nm = buyLots st nm"
    unfolding nm qo po by blast
  have exh: "quantity held = ?q \<longleftrightarrow> quantity held \<le> quantity (position order)"
    by (auto simp: min_def)
  have "consistent st'"
    unfolding consistent_def
  proof
    fix n
    show "heldQuantity st' n = of_nat (lotTotal (buyLots st' n))"
    proof (cases "n = ?nm")
      case False
      then show ?thesis using con others [OF False] pf [of n]
        by (simp add: consistent_def heldQuantity_def)
    next
      case True
      have "heldQuantity st' ?nm = quantity held - ?q"
        using pf [of ?nm] by (simp add: heldQuantity_def HandleSell_reprice_def qo)
      moreover have "lotTotal (buyLots st' ?nm) = lotTotal (buyLots st ?nm) - unat ?q"
        using tot by simp
      moreover have "(of_nat (lotTotal (buyLots st ?nm) - unat ?q) :: 32 word) =
          of_nat (lotTotal (buyLots st ?nm)) - of_nat (unat ?q)"
        using tot by simp
      ultimately show ?thesis using True eq by simp
    qed
  qed
  with hs cash tr pf exh k held show ?thesis
    by (auto simp: SubmitOrder_def Let_def)
qed


lemma SubmitOrder_consistent:
  assumes "consistent st" "SubmitOrder st order = Inr (n, st')"
  shows "consistent st'"
proof (cases "kind order")
  case Buy
  with assms show ?thesis
    by (auto simp: SubmitOrder_def HandleBuy_consistent split: sum.splits if_splits)
next
  case Sell
  show ?thesis
  proof (cases "map_of (portfolio st) (name (position order))")
    case None
    with Sell assms show ?thesis by (simp add: SubmitOrder_def)
  next
    case (Some held)
    from SubmitOrder_Sell [OF assms(1) Sell Some] assms(2) show ?thesis by auto
  qed
qed

lemma consistent_new: "consistent (new_BrokerClient c)"
  by (simp add: consistent_def new_BrokerClient_def heldQuantity_def buyLots_def map_at_def lotTotal_def)

lemma reachable_consistent: "reachable st \<Longrightarrow> consistent st"
  by (induction rule: reachable.induct) (auto intro: consistent_new SubmitOrder_consistent)

subsection \<open>Rounding, reachable states and the order of the portfolio\<close>

lemma round64_0: "round64 0 = Finite 0"
  by (simp add: round64_def)

lemma pow2_pos: "0 < pow2 e"
  by (simp add: pow2_def)

lemma pow2_add: "pow2 (a + b) = pow2 a * pow2 b"
proof -
  have "pow2 e = 2 powi e" for e
    by (simp add: pow2_def power_int_def field_simps)
  then show ?thesis by (simp add: power_int_add)
qed

lemma binade_le:
  assumes "1 \<le> \<bar>x\<bar>"
  shows "pow2 (binade x) \<le> \<bar>x\<bar>"
proof -
  let ?n = "\<lfloor>\<bar>x\<bar>\<rfloor>"
  have n: "0 < ?n" using assms by linarith
  from bitlen_bounds [OF n] have "2 ^ nat (bitlen ?n - 1) \<le> ?n" by simp
  then have "(2::real) ^ nat (bitlen ?n - 1) \<le> real_of_int ?n"
    by (metis of_int_le_iff of_int_numeral of_int_power)
  also have "\<dots> \<le> \<bar>x\<bar>" by simp
  finally have le: "(2::real) ^ nat (bitlen ?n - 1) \<le> \<bar>x\<bar>" .
  have "0 < bitlen ?n" using n bitlen_eq_zero_iff [of ?n] bitlen_nonneg [of ?n] by linarith
  then have "pow2 (binade x) = 2 ^ nat (bitlen ?n - 1)"
    using assms by (simp add: binade_def pow2_def)
  with le show ?thesis by simp
qed

lemma round_half_even_ge: "\<lfloor>z\<rfloor> \<le> round_half_even z"
  by (simp add: round_half_even_def Let_def)

lemma round64_ge_nat:
  assumes le: "real n \<le> x" and small: "n < 2 ^ 53"
  shows "\<not> dless (round64 x) (Finite (real n))"
proof (cases "x = 0")
  case True
  with le show ?thesis by (simp add: round64_0)
next
  case False
  then have xpos: "0 < x" using le by (smt (verit) of_nat_0_le_iff)
  define e where "e = max (binade x) (- 1022) - 52"
  define k where "k = round_half_even (x / pow2 e)"
  have r: "round64 x = (if 2 ^ 1024 \<le> \<bar>of_int k * pow2 e\<bar> then PosInf else Finite (of_int k * pow2 e))"
    using False xpos by (simp add: round64_def Let_def e_def k_def signed_inf_def)
  have "real n \<le> of_int k * pow2 e"
  proof (cases "e \<le> 0")
    case True
    then have p: "pow2 e = 1 / 2 ^ nat (- e)" by (auto simp: pow2_def)
    have "real n * 2 ^ nat (- e) \<le> x / pow2 e"
      using le by (simp add: p mult_right_mono)
    then have "real_of_int (int (n * 2 ^ nat (- e))) \<le> x / pow2 e" by simp
    then have "int (n * 2 ^ nat (- e)) \<le> \<lfloor>x / pow2 e\<rfloor>" by (simp only: le_floor_iff)
    also have "\<dots> \<le> k" unfolding k_def by (rule round_half_even_ge)
    finally have "real_of_int (int (n * 2 ^ nat (- e))) \<le> real_of_int k" by (simp only: of_int_le_iff)
    then have "real n * 2 ^ nat (- e) \<le> real_of_int k" by simp
    then show ?thesis by (simp add: p field_simps)
  next
    case False
    then have epos: "0 < e" by simp
    then have b: "binade x = e + 52" by (simp add: e_def max_def split: if_splits)
    have "1 \<le> \<bar>x\<bar>"
    proof (rule ccontr)
      assume "\<not> 1 \<le> \<bar>x\<bar>"
      then have "binade x \<le> 0" by (simp add: binade_def bitlen_nonneg)
      with b epos show False by simp
    qed
    from binade_le [OF this] have "pow2 (e + 52) \<le> x" using xpos b by simp
    then have "pow2 52 * pow2 e \<le> x" by (simp add: pow2_add mult.commute)
    then have "pow2 52 \<le> x / pow2 e" using pow2_pos [of e] by (simp add: pos_le_divide_eq)
    then have "real_of_int (2 ^ 52) \<le> x / pow2 e" by (simp add: pow2_def)
    then have "2 ^ 52 \<le> \<lfloor>x / pow2 e\<rfloor>" by (simp only: le_floor_iff)
    also have "\<dots> \<le> k" unfolding k_def by (rule round_half_even_ge)
    finally have "(2::real) ^ 52 \<le> real_of_int k"
      by (metis of_int_le_iff of_int_numeral of_int_power)
    moreover have "2 \<le> pow2 e"
    proof -
      have "1 \<le> nat e" using epos by simp
      then have "(2::real) ^ 1 \<le> 2 ^ nat e" by (rule power_increasing) simp
      then show ?thesis using epos by (simp add: pow2_def)
    qed
    ultimately have "(2::real) ^ 52 * 2 \<le> real_of_int k * pow2 e"
      by (intro mult_mono) simp_all
    moreover have "real n < 2 ^ 53" using small by (metis of_nat_less_iff of_nat_numeral of_nat_power)
    ultimately show ?thesis by simp
  qed
  then show ?thesis by (simp add: r)
qed

lemma holding_AAPL_reachable: "reachable holding_AAPL"
proof -
  have "SubmitOrder (new_BrokerClient (Finite 10000)) (mkOrder Buy ''AAPL'' 10 (Finite 100))
          = Inr (10, holding_AAPL)"
    by (simp add: client_defs holding_AAPL_def)
  then show ?thesis by (rule reachable.submitted [OF reachable.constructed])
qed

lemma holding_two_reachable: "reachable holding_two"
proof -
  have "SubmitOrders (new_BrokerClient (Finite 10000))
          [mkOrder Buy ''MSFT'' 3 (Finite 200), mkOrder Buy ''AAPL'' 10 (Finite 100)] = Inr holding_two"
    by (simp add: client_defs holding_two_def)
  then obtain n1 s1 n2 where
    "SubmitOrder (new_BrokerClient (Finite 10000)) (mkOrder Buy ''MSFT'' 3 (Finite 200)) = Inr (n1, s1)"
    "SubmitOrder s1 (mkOrder Buy ''AAPL'' 10 (Finite 100)) = Inr (n2, holding_two)"
    by (auto split: sum.splits)
  then show ?thesis
    by (blast intro: reachable.intros)
qed

lemma map_fst_map_assign: "map fst (map_assign k v es) = map fst es"
  by (induction es) (simp_all add: map_assign_def)

lemma set_map_assign: "set (map_assign k v es) \<subseteq> insert (k, v) (set es)"
  by (auto simp: map_assign_def)

lemma set_map_insert: "set (map_insert k v es) \<subseteq> insert (k, v) (set es)"
  by (induction es) auto

lemma keys_map_insert: "fst ` set (map_insert k v es) = insert k (fst ` set es)"
  by (induction es) auto

lemma sorted_map_insert:
  "sorted_wrt (<) (map fst es) \<Longrightarrow> sorted_wrt (<) (map fst (map_insert k v es))"
proof (induction es)
  case Nil
  then show ?case by simp
next
  case (Cons e es)
  then have "\<forall>x \<in> fst ` set (map_insert k v es). \<not> k < fst e \<longrightarrow> k \<noteq> fst e \<longrightarrow> fst e < x"
    by (auto simp: keys_map_insert)
  with Cons show ?case by auto
qed

lemma sorted_map_erase:
  "sorted_wrt (<) (map fst es) \<Longrightarrow> sorted_wrt (<) (map fst (map_erase k es))"
  by (induction es) (auto simp: map_erase_def)

lemma set_map_erase: "set (map_erase k es) \<subseteq> set es"
  by (auto simp: map_erase_def)

lemma HandleBuy_portfolio_list:
  "portfolio (HandleBuy st order) =
     (case map_of (portfolio st) (name (position order)) of
        None \<Rightarrow> map_insert (name (position order)) (position order) (portfolio st)
      | Some held \<Rightarrow>
          map_assign (name (position order))
            (held\<lparr>quantity := quantity held + quantity (position order),
                  price := weightedPrice (position order) held\<rparr>)
            (portfolio st))"
  by (simp add: HandleBuy_def Let_def)

lemma HandleSell_portfolio_list:
  assumes "HandleSell st order = Inr st'"
    and "map_of (portfolio st) (name (position order)) = Some held"
  shows "\<exists>v. portfolio st' =
           (if quantity (HandleSell_reprice held order v) = 0
            then map_erase (name (position order)) (portfolio st)
            else map_assign (name (position order)) (HandleSell_reprice held order v) (portfolio st))"
  using assms
  by (auto simp: HandleSell_def Let_def map_subscript_def map_at_def split: sum.splits prod.splits)

lemma keyed_in_order_assign:
  assumes "keyed_in_order st" "name v = k"
  shows "sorted_wrt (<) (map fst (map_assign k v (portfolio st)))"
    and "\<forall>e \<in> set (map_assign k v (portfolio st)). name (snd e) = fst e"
  using assms set_map_assign [of k v "portfolio st"]
  by (auto simp: keyed_in_order_def map_fst_map_assign)

lemma keyed_in_order_insert:
  assumes "keyed_in_order st" "name v = k"
  shows "sorted_wrt (<) (map fst (map_insert k v (portfolio st)))"
    and "\<forall>e \<in> set (map_insert k v (portfolio st)). name (snd e) = fst e"
  using assms set_map_insert [of k v "portfolio st"]
  by (auto simp: keyed_in_order_def sorted_map_insert)

lemma keyed_in_order_erase:
  assumes "keyed_in_order st"
  shows "sorted_wrt (<) (map fst (map_erase k (portfolio st)))"
    and "\<forall>e \<in> set (map_erase k (portfolio st)). name (snd e) = fst e"
  using assms set_map_erase [of k "portfolio st"]
  by (auto simp: keyed_in_order_def sorted_map_erase)

lemma keyed_in_order_name:
  "keyed_in_order st \<Longrightarrow> map_of (portfolio st) k = Some held \<Longrightarrow> name held = k"
  by (fastforce simp: keyed_in_order_def dest!: map_of_SomeD)

lemma SubmitOrder_keyed_in_order:
  assumes inv: "keyed_in_order st" and step: "SubmitOrder st order = Inr (n, st')"
  shows "keyed_in_order st'"
proof (cases "kind order")
  case Buy
  show ?thesis
  proof (cases "n = 0")
    case True
    with Buy step inv show ?thesis
      by (auto simp: SubmitOrder_def split: sum.splits if_splits)
  next
    case False
    with Buy step have st': "st' = HandleBuy st (completedOrder order n)"
      by (auto simp: SubmitOrder_def split: sum.splits if_splits)
    have nm: "name (position (completedOrder order n)) = name (position order)"
      by (simp add: completedOrder_def)
    show ?thesis
    proof (cases "map_of (portfolio st) (name (position order))")
      case None
      with keyed_in_order_insert [OF inv nm] show ?thesis
        by (simp add: keyed_in_order_def st' HandleBuy_portfolio_list nm)
    next
      case (Some held)
      let ?v = "held\<lparr>quantity := quantity held + quantity (position (completedOrder order n)),
                  price := weightedPrice (position (completedOrder order n)) held\<rparr>"
      have "name ?v = name (position order)"
        using keyed_in_order_name [OF inv Some] by simp
      from keyed_in_order_assign [OF inv this] Some show ?thesis
        by (simp add: keyed_in_order_def st' HandleBuy_portfolio_list nm)
    qed
  qed
next
  case Sell
  show ?thesis
  proof (cases "map_of (portfolio st) (name (position order))")
    case None
    with Sell step inv show ?thesis by (simp add: SubmitOrder_def)
  next
    case (Some held)
    let ?o = "completedOrder order (min (quantity (position order)) (quantity held))"
    have nm: "name (position ?o) = name (position order)"
      by (simp add: completedOrder_def)
    from Sell Some step have hs: "HandleSell st ?o = Inr st'"
      by (auto simp: SubmitOrder_def Let_def split: sum.splits)
    from HandleSell_portfolio_list [OF hs] Some obtain v where
      pf: "portfolio st' =
           (if quantity (HandleSell_reprice held ?o v) = 0
            then map_erase (name (position order)) (portfolio st)
            else map_assign (name (position order)) (HandleSell_reprice held ?o v) (portfolio st))"
      unfolding nm by blast
    have "name (HandleSell_reprice held ?o v) = name (position order)"
      using keyed_in_order_name [OF inv Some] by (simp add: HandleSell_reprice_def)
    from keyed_in_order_assign [OF inv this] keyed_in_order_erase [OF inv, of "name (position order)"]
    show ?thesis
      by (simp add: keyed_in_order_def pf)
  qed
qed

lemma reachable_keyed_in_order: "reachable st \<Longrightarrow> keyed_in_order st"
proof (induction rule: reachable.induct)
  case (constructed c)
  show ?case by (simp add: keyed_in_order_def new_BrokerClient_def)
next
  case (submitted st order n st')
  then show ?case by (blast intro: SubmitOrder_keyed_in_order)
qed

lemma map_the_map_of:
  "distinct (map fst es) \<Longrightarrow> map (\<lambda>k. the (map_of es k)) (map fst es) = map snd es"
  by (induction es) (auto simp: image_iff)

text \<open>
  A buy order that the cash balance pays for in exact arithmetic is filled in full: the
  rounded quotient is not below the requested quantity.
\<close>

lemma fill_affordable:
  assumes "0 < p" and "real (unat w) * p \<le> c"
  shows "to_u32 (std_min (of_u32 w) (ddiv (Finite c) (Finite p))) = Inr w"
proof -
  have "real (unat w) \<le> c / p"
    using assms by (simp add: pos_le_divide_eq del: of_nat_unat)
  moreover have "unat w < 2 ^ 53"
  proof -
    have "unat w < 2 ^ 32" using unsigned_less [of w, where 'a = nat] by simp
    also have "(2::nat) ^ 32 < 2 ^ 53" by simp
    finally show ?thesis .
  qed
  ultimately have "\<not> dless (round64 (c / p)) (Finite (real (unat w)))"
    by (rule round64_ge_nat)
  then have "std_min (of_u32 w) (ddiv (Finite c) (Finite p)) = of_u32 w"
    using assms(1) by (auto simp: std_min_def of_u32_def round64_0 simp del: of_nat_unat)
  then show ?thesis by (simp only: to_u32_of_u32)
qed

section \<open>The transaction log\<close>

text \<open>
  C1. The claim is that every entry of the transaction log has a filled quantity above 0,
  and that an order that fills nothing is never appended. The buy branch of
  \<^verbatim>\<open>SubmitOrder\<close> leaves before \<^verbatim>\<open>HandleBuy\<close> when nothing is filled; the sell branch
  has no such test. With a cash balance of 10000, after buying 10 AAPL at 100, a sell order
  for 0 AAPL at 100 returns 0 and is appended to the log with quantity 0.
\<close>

theorem zero_quantity_sell_is_logged:
  "(case SubmitOrder (new_BrokerClient (Finite 10000)) (mkOrder Buy ''AAPL'' 10 (Finite 100)) of
      Inl e \<Rightarrow> False
    | Inr (bought, st) \<Rightarrow>
        bought = 10 \<and>
        (case SubmitOrder st (mkOrder Sell ''AAPL'' 0 (Finite 100)) of
           Inl e \<Rightarrow> False
         | Inr (sold, st') \<Rightarrow>
             sold = 0 \<and>
             GetTransactions st' =
               [mkOrder Buy ''AAPL'' 10 (Finite 100), mkOrder Sell ''AAPL'' 0 (Finite 100)]))"
  by (simp add: client_defs)

section \<open>Portfolio quantity and outstanding buy orders\<close>

text \<open>
  C4. The claim is that after every call the quantity of a security's portfolio entry is
  the sum of the quantities of its outstanding buy orders. \<^verbatim>\<open>HandleBuy\<close> adds the
  quantities in \<^verbatim>\<open>uint32_t\<close>, with nothing against an overflow. With a cash balance
  of 10000, two buy orders for 2147483648 AAPL at 1/1048576 each (2048 in cash each time)
  are both filled in full: the portfolio entry then records the quantity 0, while the two
  outstanding buy orders sum to 4294967296.
\<close>

theorem portfolio_quantity_wraps_around:
  "(case SubmitOrders (new_BrokerClient (Finite 10000))
           [mkOrder Buy ''AAPL'' 2147483648 (Finite (1 / 1048576)),
            mkOrder Buy ''AAPL'' 2147483648 (Finite (1 / 1048576))] of
      Inl e \<Rightarrow> False
    | Inr st \<Rightarrow>
        heldQuantity st ''AAPL'' = 0 \<and>
        lotTotal (buyLots st ''AAPL'') = 4294967296 \<and>
        map (\<lambda>lot. quantity (position lot)) (buyLots st ''AAPL'') = [2147483648, 2147483648] \<and>
        GetCashBalance st = Finite 5904)"
  by (simp add: client_defs heldQuantity_def lotTotal_def buyLots_def)

section \<open>The weighted average price\<close>

text \<open>
  From a client constructed with 10000 in cash, the orders buy 10 at 10, buy 10 at 40,
  sell 5 at 60, sell 10 at 60 and buy 5 at 45 leave a single position whose price and
  quantity are (25, 20) after the two buys, then (30, 15), (40, 5) and (42.5, 10). The
  prices after the sells come from the buy orders consumed first-in first-out
  (5 at 10, then 5 at 10 and 5 at 40), not from the selling price 60.
\<close>

lemma weighted_average_example:
  "priceAndQuantity (SubmitOrders (new_BrokerClient (Finite 10000))
     [mkOrder Buy ''AAPL'' 10 (Finite 10), mkOrder Buy ''AAPL'' 10 (Finite 40)])
     = [(Finite 25, 20)]
   \<and> priceAndQuantity (SubmitOrders (new_BrokerClient (Finite 10000))
     [mkOrder Buy ''AAPL'' 10 (Finite 10), mkOrder Buy ''AAPL'' 10 (Finite 40),
      mkOrder Sell ''AAPL'' 5 (Finite 60)])
     = [(Finite 30, 15)]
   \<and> priceAndQuantity (SubmitOrders (new_BrokerClient (Finite 10000))
     [mkOrder Buy ''AAPL'' 10 (Finite 10), mkOrder Buy ''AAPL'' 10 (Finite 40),
      mkOrder Sell ''AAPL'' 5 (Finite 60), mkOrder Sell ''AAPL'' 10 (Finite 60)])
     = [(Finite 40, 5)]
   \<and> priceAndQuantity (SubmitOrders (new_BrokerClient (Finite 10000))
     [mkOrder Buy ''AAPL'' 10 (Finite 10), mkOrder Buy ''AAPL'' 10 (Finite 40),
      mkOrder Sell ''AAPL'' 5 (Finite 60), mkOrder Sell ''AAPL'' 10 (Finite 60),
      mkOrder Buy ''AAPL'' 5 (Finite 45)])
     = [(Finite (85 / 2), 10)]"
  by (simp add: client_defs priceAndQuantity_def)

text \<open>
  C6. The claim is that the five orders give these positions from every ledger with
  sufficient cash and no holding of the security. A client can be without a holding while
  buy orders of the security are still in its queue: with 10000 in cash, two buys of
  2147483648 AAPL at 1/1048576 wrap the quantity around to 0 (C4), and a sell order for
  0 AAPL erases the entry (C1). The client then has 5904 in cash and no position. The two
  buys of the claim give (25, 20), but the sell of 5 at 60 takes its 5 shares from the
  oldest outstanding buy order, at 1/1048576 a share, and the price becomes
  \<open>(25 * 20 - 5 / 1048576) / 15\<close>, about 33.33, not 30.
\<close>

theorem weighted_average_with_stale_buy_orders:
  "(case SubmitOrders (new_BrokerClient (Finite 10000))
           [mkOrder Buy ''AAPL'' 2147483648 (Finite (1 / 1048576)),
            mkOrder Buy ''AAPL'' 2147483648 (Finite (1 / 1048576)),
            mkOrder Sell ''AAPL'' 0 (Finite 60)] of
      Inl e \<Rightarrow> False
    | Inr st \<Rightarrow>
        GetPositions st = [] \<and> heldQuantity st ''AAPL'' = 0 \<and>
        GetCashBalance st = Finite 5904 \<and>
        priceAndQuantity (SubmitOrders st
          [mkOrder Buy ''AAPL'' 10 (Finite 10), mkOrder Buy ''AAPL'' 10 (Finite 40)])
          = [(Finite 25, 20)] \<and>
        priceAndQuantity (SubmitOrders st
          [mkOrder Buy ''AAPL'' 10 (Finite 10), mkOrder Buy ''AAPL'' 10 (Finite 40),
           mkOrder Sell ''AAPL'' 5 (Finite 60)])
          = [(Finite (34952533 / 1048576), 15)])"
  by (simp add: client_defs priceAndQuantity_def heldQuantity_def)

section \<open>The cash balance\<close>

text \<open>
  C3. The claim is that the cash balance never goes below 0. \<^verbatim>\<open>SubmitOrder\<close> takes the
  quantity that the cash pays for from the double quotient of cash balance and price. The
  quotient is rounded to the nearest double, which can be a whole number above the exact
  quotient. With a cash balance of 3.9 and a price of 1.3 (the doubles nearest to these
  decimals) the quotient is the double 3, three shares are bought, their cost
  \<open>1.3 * 3\<close> is the double just above 3.9, and the cash balance becomes \<open>- 2 ^ - 51\<close>.
\<close>

theorem buy_overdraws_cash:
  "round64 (39 / 10) = Finite (8782019273372467 / 2251799813685248)
   \<and> round64 (13 / 10) = Finite (5854679515581645 / 4503599627370496)
   \<and> ddiv (round64 (39 / 10)) (round64 (13 / 10)) = Finite 3
   \<and> dmul (round64 (13 / 10)) (of_u32 3) = Finite (2195504818343117 / 562949953421312)
   \<and> (case SubmitOrder (new_BrokerClient (round64 (39 / 10)))
               (mkOrder Buy ''AAPL'' 5 (round64 (13 / 10))) of
         Inl e \<Rightarrow> False
       | Inr (n, st') \<Rightarrow> n = 3 \<and> GetCashBalance st' = Finite (- (1 / 2251799813685248)))"
  by (simp add: client_defs)

text \<open>
  C5. The claim is that a buy order for more than the cash pays for is filled with the
  floor of cash balance over price and leaves a cash balance from 0 up to the price. With
  a cash balance of 7.7 and a price of 1.1 the exact quotient of the two doubles is below
  7, and its floor is 6; the rounded quotient is the double 7, seven shares are bought, and
  the cash balance becomes \<open>- 2 ^ - 50\<close>. The instance of the claim with a balance of 10000
  and 101 shares at 100, where every value is exact, does hold.
\<close>

theorem buy_fills_more_than_affordable:
  "round64 (77 / 10) = Finite (8669429282688205 / 1125899906842624)
   \<and> round64 (11 / 10) = Finite (2476979795053773 / 2251799813685248)
   \<and> \<lfloor>(8669429282688205 / 1125899906842624) / (2476979795053773 / 2251799813685248) :: real\<rfloor> = 6
   \<and> (case SubmitOrder (new_BrokerClient (round64 (77 / 10)))
               (mkOrder Buy ''AAPL'' 10 (round64 (11 / 10))) of
         Inl e \<Rightarrow> False
       | Inr (n, st') \<Rightarrow> n = 7 \<and> GetCashBalance st' = Finite (- (1 / 1125899906842624)))"
  by (simp add: client_defs)

lemma buy_partial_fill_example:
  "(case SubmitOrder (new_BrokerClient (Finite 10000)) (mkOrder Buy ''AAPL'' 101 (Finite 100)) of
      Inl e \<Rightarrow> False
    | Inr (n, st') \<Rightarrow> n = 100 \<and> GetCashBalance st' = Finite 0)"
  by (simp add: client_defs)

section \<open>Buying and selling back\<close>

text \<open>
  C7 as amended. The security is not held, the quantity and the price are above 0, and the
  cash balance is a double that covers quantity times price. Then the buy order is filled
  in full, the sell order at the same price is filled in full, and the security is out of
  the portfolio again. The cash balance is then the rounded sum of the cost and the rounded
  difference of the old balance and the cost, where the cost is the rounded product of
  price and quantity. It is the balance before the buy when that balance is a double and
  the difference needs no rounding.
\<close>

theorem buy_then_sell_restores_cash:
  assumes absent: "map_of (portfolio st) nm = None"
    and q: "0 < q" and p: "0 < p"
    and cash: "cashBalance st = Finite c" and enough: "real (unat q) * p \<le> c"
  shows "\<exists>st1 st2.
           SubmitOrder st (mkOrder Buy nm q (Finite p)) = Inr (q, st1) \<and>
           SubmitOrder st1 (mkOrder Sell nm q (Finite p)) = Inr (q, st2) \<and>
           map_of (portfolio st2) nm = None \<and>
           GetCashBalance st2 =
             dadd (dsub (GetCashBalance st) (dmul (Finite p) (of_u32 q)))
                  (dmul (Finite p) (of_u32 q)) \<and>
           (is_double (GetCashBalance st) \<and> dmul (Finite p) (of_u32 q) = Finite x \<and>
            round64 (c - x) = Finite (c - x)
            \<longrightarrow> GetCashBalance st2 = GetCashBalance st)"
proof -
  let ?buy = "mkOrder Buy nm q (Finite p)" and ?sell = "mkOrder Sell nm q (Finite p)"
  let ?st1 = "HandleBuy st (completedOrder ?buy q)"
  let ?cost = "dmul (Finite p) (of_u32 q)"
  from fill_affordable [OF p enough] have
    "to_u32 (std_min (of_u32 (quantity (position ?buy)))
        (ddiv (cashBalance st) (price (position ?buy)))) = Inr q"
    by (simp add: mkOrder_def cash)
  from SubmitOrder_Buy [OF _ this] q have
    buy: "SubmitOrder st ?buy = Inr (q, ?st1)"
    by (simp add: mkOrder_def)
  let ?held = "\<lparr>name = nm, quantity = q, price = Finite p\<rparr>"
  have held: "map_of (portfolio ?st1) (name (position (completedOrder ?sell q))) = Some ?held"
    using absent by (simp add: HandleBuy_portfolio completedOrder_def mkOrder_def)
  have le: "quantity (position (completedOrder ?sell q)) \<le> quantity ?held"
    by (simp add: completedOrder_def)
  have lots: "unat (quantity (position (completedOrder ?sell q)))
      \<le> lotTotal (buyLots ?st1 (name (position (completedOrder ?sell q))))"
    by (simp add: completedOrder_def mkOrder_def HandleBuy_lots lotTotal_append lotTotal_Cons
          lotTotal_Nil)
  from HandleSell_effect [OF held le lots] obtain st2 where
    hs: "HandleSell ?st1 (completedOrder ?sell q) = Inr st2"
    and c2: "cashBalance st2 = dadd (cashBalance ?st1)
         (dmul (price (position (completedOrder ?sell q)))
               (of_u32 (quantity (position (completedOrder ?sell q)))))"
    and pf: "map_of (portfolio st2) (name (position (completedOrder ?sell q))) = None"
    by (auto simp: completedOrder_def)
  have sell: "SubmitOrder ?st1 ?sell = Inr (q, st2)"
    using held hs by (simp add: SubmitOrder_def completedOrder_def mkOrder_def)
  have c1: "cashBalance ?st1 = dsub (cashBalance st) ?cost"
    by (simp add: HandleBuy_cash completedOrder_def mkOrder_def)
  have final: "cashBalance st2 = dadd (dsub (cashBalance st) ?cost) ?cost"
    using c2 c1 by (simp add: completedOrder_def mkOrder_def)
  have gone: "map_of (portfolio st2) nm = None"
    using pf by (simp add: completedOrder_def mkOrder_def)
  have restored: "cashBalance st2 = cashBalance st"
    if "is_double (cashBalance st)" "?cost = Finite x" "round64 (c - x) = Finite (c - x)"
  proof -
    have "round64 c = Finite c" using that(1) cash by (simp add: is_double_def)
    with final that(2,3) show ?thesis by (simp add: cash dsub_def)
  qed
  from buy sell gone final restored show ?thesis
    by (auto simp: GetCashBalance_def)
qed

theorem buy_then_sell_restores_cash_witness:
  "map_of (portfolio (new_BrokerClient (Finite 10000))) ''AAPL'' = None \<and>
   (0 :: 32 word) < 10 \<and> (0 :: real) < 100 \<and>
   cashBalance (new_BrokerClient (Finite 10000)) = Finite 10000 \<and>
   real (unat (10 :: 32 word)) * 100 \<le> 10000 \<and>
   is_double (GetCashBalance (new_BrokerClient (Finite 10000))) \<and>
   dmul (Finite 100) (of_u32 10) = Finite 1000 \<and>
   round64 (10000 - 1000) = Finite (10000 - 1000) \<and>
   (\<exists>st1 st2.
      SubmitOrder (new_BrokerClient (Finite 10000)) (mkOrder Buy ''AAPL'' 10 (Finite 100))
        = Inr (10, st1) \<and>
      SubmitOrder st1 (mkOrder Sell ''AAPL'' 10 (Finite 100)) = Inr (10, st2) \<and>
      map_of (portfolio st2) ''AAPL'' = None \<and>
      GetCashBalance st2 = GetCashBalance (new_BrokerClient (Finite 10000)))"
proof -
  have h: "map_of (portfolio (new_BrokerClient (Finite 10000))) ''AAPL'' = None"
    "(0 :: 32 word) < 10" "(0 :: real) < 100"
    "cashBalance (new_BrokerClient (Finite 10000)) = Finite 10000"
    "real (unat (10 :: 32 word)) * 100 \<le> 10000"
    by (simp_all add: new_BrokerClient_def)
  have e: "is_double (GetCashBalance (new_BrokerClient (Finite 10000)))"
    "dmul (Finite 100) (of_u32 10) = Finite 1000"
    "round64 (10000 - 1000) = Finite (10000 - 1000)"
    by (simp_all add: new_BrokerClient_def GetCashBalance_def is_double_def of_u32_def
          round64_defs)
  from buy_then_sell_restores_cash [OF h, of 1000] e h show ?thesis by blast
qed

text \<open>
  C7 as stated says that the cash balance is restored exactly in every case. With a cash
  balance of 0.9, buying 1 share at 0.2 and selling it at 0.2 fills both orders, and the
  cash balance ends as the double just below 0.9: the difference \<open>0.9 - 0.2\<close> is rounded.
\<close>

theorem buy_then_sell_rounds_cash:
  "round64 (9 / 10) = Finite (8106479329266893 / 9007199254740992)
   \<and> SubmitOrders (new_BrokerClient (round64 (9 / 10)))
        [mkOrder Buy ''AAPL'' 1 (round64 (2 / 10)), mkOrder Sell ''AAPL'' 1 (round64 (2 / 10))]
      = Inr \<lparr>cashBalance = Finite (2026619832316723 / 2251799813685248),
              portfolio = [],
              transactions = [mkOrder Buy ''AAPL'' 1 (round64 (2 / 10)),
                              mkOrder Sell ''AAPL'' 1 (round64 (2 / 10))],
              outstandingBuyOrderMap = [(''AAPL'', [])]\<rparr>
   \<and> (2026619832316723 / 2251799813685248 :: real) < 8106479329266893 / 9007199254740992"
  by (simp add: client_defs)

section \<open>Selling\<close>

text \<open>
  C8. In a state the client can reach, a sell order for more than the quantity held returns
  the quantity held, logs an order of that quantity and removes the position. A sell order
  for a security that is not in the portfolio returns 0 and leaves the whole state as it
  was, in every state.
\<close>

theorem sell_beyond_holding:
  "(reachable st \<and> kind order = Sell \<and>
    map_of (portfolio st) (name (position order)) = Some held \<and>
    quantity held < quantity (position order)
    \<longrightarrow> (\<exists>st'. SubmitOrder st order = Inr (quantity held, st') \<and>
              GetTransactions st' = GetTransactions st @ [completedOrder order (quantity held)] \<and>
              map_of (portfolio st') (name (position order)) = None))
   \<and> (kind order = Sell \<and> map_of (portfolio st) (name (position order)) = None
    \<longrightarrow> SubmitOrder st order = Inr (0, st))"
proof (intro conjI impI)
  assume a: "reachable st \<and> kind order = Sell \<and>
    map_of (portfolio st) (name (position order)) = Some held \<and>
    quantity held < quantity (position order)"
  then have con: "consistent st" by (simp add: reachable_consistent)
  from a have "quantity held < quantity (position order)" by blast
  then have le: "quantity held \<le> quantity (position order)" by (rule less_imp_le)
  then have m: "min (quantity (position order)) (quantity held) = quantity held"
    by (rule min_absorb2)
  from SubmitOrder_Sell [OF con] a
  obtain st' where
    "SubmitOrder st order = Inr (min (quantity (position order)) (quantity held), st')"
    "transactions st' = transactions st @
         [completedOrder order (min (quantity (position order)) (quantity held))]"
    "map_of (portfolio st') (name (position order)) = None"
    using le by fastforce
  then show "\<exists>st'. SubmitOrder st order = Inr (quantity held, st') \<and>
              GetTransactions st' = GetTransactions st @ [completedOrder order (quantity held)] \<and>
              map_of (portfolio st') (name (position order)) = None"
    unfolding m by (auto simp: GetTransactions_def)
next
  assume "kind order = Sell \<and> map_of (portfolio st) (name (position order)) = None"
  then show "SubmitOrder st order = Inr (0, st)" by (simp add: SubmitOrder_def)
qed

theorem sell_beyond_holding_witness:
  "(reachable holding_AAPL \<and> kind (mkOrder Sell ''AAPL'' 15 (Finite 120)) = Sell \<and>
    map_of (portfolio holding_AAPL) (name (position (mkOrder Sell ''AAPL'' 15 (Finite 120))))
      = Some \<lparr>name = ''AAPL'', quantity = 10, price = Finite 100\<rparr> \<and>
    quantity \<lparr>name = ''AAPL'', quantity = 10, price = Finite 100\<rparr>
      < quantity (position (mkOrder Sell ''AAPL'' 15 (Finite 120))))
   \<and> (\<exists>st'. SubmitOrder holding_AAPL (mkOrder Sell ''AAPL'' 15 (Finite 120)) = Inr (10, st') \<and>
          GetTransactions st' =
            GetTransactions holding_AAPL @ [mkOrder Sell ''AAPL'' 10 (Finite 120)] \<and>
          map_of (portfolio st') ''AAPL'' = None)
   \<and> (kind (mkOrder Sell ''MSFT'' 5 (Finite 1)) = Sell \<and>
       map_of (portfolio holding_AAPL) (name (position (mkOrder Sell ''MSFT'' 5 (Finite 1)))) = None)
   \<and> SubmitOrder holding_AAPL (mkOrder Sell ''MSFT'' 5 (Finite 1)) = Inr (0, holding_AAPL)"
proof -
  let ?held = "\<lparr>name = ''AAPL'', quantity = 10, price = Finite 100\<rparr>"
  have h1: "reachable holding_AAPL \<and> kind (mkOrder Sell ''AAPL'' 15 (Finite 120)) = Sell \<and>
    map_of (portfolio holding_AAPL) (name (position (mkOrder Sell ''AAPL'' 15 (Finite 120))))
      = Some ?held \<and>
    quantity ?held < quantity (position (mkOrder Sell ''AAPL'' 15 (Finite 120)))"
    using holding_AAPL_reachable by (simp add: holding_AAPL_def mkOrder_def)
  have h2: "kind (mkOrder Sell ''MSFT'' 5 (Finite 1)) = Sell \<and>
       map_of (portfolio holding_AAPL) (name (position (mkOrder Sell ''MSFT'' 5 (Finite 1)))) = None"
    by (simp add: holding_AAPL_def mkOrder_def)
  note a = sell_beyond_holding [of holding_AAPL "mkOrder Sell ''AAPL'' 15 (Finite 120)" ?held,
      THEN conjunct1, rule_format, OF h1]
  note b = sell_beyond_holding [of holding_AAPL "mkOrder Sell ''MSFT'' 5 (Finite 1)" ?held,
      THEN conjunct2, rule_format, OF h2]
  from a have "\<exists>st'. SubmitOrder holding_AAPL (mkOrder Sell ''AAPL'' 15 (Finite 120)) = Inr (10, st') \<and>
          GetTransactions st' =
            GetTransactions holding_AAPL @ [mkOrder Sell ''AAPL'' 10 (Finite 120)] \<and>
          map_of (portfolio st') ''AAPL'' = None"
    by (simp add: completedOrder_def mkOrder_def)
  with h1 h2 b show ?thesis by blast
qed

text \<open>
  C2 as amended. In a state the client can reach, a sell order for at least the quantity
  held returns the quantity held and removes the portfolio entry. The price is recomputed
  before the entry is removed, with the divisor \<open>(double)0\<close>: nothing guards the division
  of lines 141 to 143.
\<close>

theorem sell_exhausting_removes_position:
  assumes "reachable st" and "kind order = Sell"
    and "map_of (portfolio st) (name (position order)) = Some held"
    and "quantity held \<le> quantity (position order)"
  shows "\<exists>st'. SubmitOrder st order = Inr (quantity held, st') \<and>
           map_of (portfolio st') (name (position order)) = None \<and>
           HandleSell_divisor held (completedOrder order (quantity held)) = Finite 0"
proof -
  have con: "consistent st" using assms(1) by (rule reachable_consistent)
  have m: "min (quantity (position order)) (quantity held) = quantity held"
    using assms(4) by (rule min_absorb2)
  from SubmitOrder_Sell [OF con assms(2,3)] assms(4)
  obtain st' where
    "SubmitOrder st order = Inr (min (quantity (position order)) (quantity held), st')"
    "map_of (portfolio st') (name (position order)) = None"
    by fastforce
  moreover have "HandleSell_divisor held (completedOrder order (quantity held)) = Finite 0"
    by (simp add: HandleSell_divisor_def completedOrder_def of_u32_def)
  ultimately show ?thesis unfolding m by blast
qed

theorem sell_exhausting_removes_position_witness:
  "reachable holding_AAPL \<and> kind (mkOrder Sell ''AAPL'' 10 (Finite 100)) = Sell \<and>
   map_of (portfolio holding_AAPL) (name (position (mkOrder Sell ''AAPL'' 10 (Finite 100))))
     = Some \<lparr>name = ''AAPL'', quantity = 10, price = Finite 100\<rparr> \<and>
   quantity \<lparr>name = ''AAPL'', quantity = 10, price = Finite 100\<rparr>
     \<le> quantity (position (mkOrder Sell ''AAPL'' 10 (Finite 100))) \<and>
   (\<exists>st'. SubmitOrder holding_AAPL (mkOrder Sell ''AAPL'' 10 (Finite 100)) = Inr (10, st') \<and>
      map_of (portfolio st') ''AAPL'' = None \<and>
      HandleSell_divisor \<lparr>name = ''AAPL'', quantity = 10, price = Finite 100\<rparr>
        (completedOrder (mkOrder Sell ''AAPL'' 10 (Finite 100)) 10) = Finite 0)"
proof -
  let ?held = "\<lparr>name = ''AAPL'', quantity = 10, price = Finite 100\<rparr>"
  have h: "reachable holding_AAPL" "kind (mkOrder Sell ''AAPL'' 10 (Finite 100)) = Sell"
    "map_of (portfolio holding_AAPL) (name (position (mkOrder Sell ''AAPL'' 10 (Finite 100))))
       = Some ?held"
    "quantity ?held \<le> quantity (position (mkOrder Sell ''AAPL'' 10 (Finite 100)))"
    using holding_AAPL_reachable by (simp_all add: holding_AAPL_def mkOrder_def)
  from sell_exhausting_removes_position [OF h]
  have "\<exists>st'. SubmitOrder holding_AAPL (mkOrder Sell ''AAPL'' 10 (Finite 100)) = Inr (10, st') \<and>
      map_of (portfolio st') ''AAPL'' = None \<and>
      HandleSell_divisor ?held (completedOrder (mkOrder Sell ''AAPL'' 10 (Finite 100)) 10) = Finite 0"
    by (simp add: mkOrder_def)
  with h show ?thesis by blast
qed

text \<open>
  C2 as stated says that the division is never evaluated with a zero divisor. After buying
  10 AAPL at 100 with 10000 in cash, selling 10 AAPL at 100 takes the buy order of value
  1000 from the queue and recomputes the price as \<open>(100 * 10 - 1000) / (double)(10 - 10)\<close>,
  which is 0 / 0, a NaN, before the entry is erased.
\<close>

theorem sell_exhausting_divides_by_zero:
  "SubmitOrder (new_BrokerClient (Finite 10000)) (mkOrder Buy ''AAPL'' 10 (Finite 100))
     = Inr (10, holding_AAPL)
   \<and> map_of (portfolio holding_AAPL) ''AAPL''
     = Some \<lparr>name = ''AAPL'', quantity = 10, price = Finite 100\<rparr>
   \<and> HandleSell_loop 10 0 (Finite 0) (buyLots holding_AAPL ''AAPL'') = Inr (Finite 1000, [])
   \<and> HandleSell_divisor \<lparr>name = ''AAPL'', quantity = 10, price = Finite 100\<rparr>
        (completedOrder (mkOrder Sell ''AAPL'' 10 (Finite 100)) 10) = Finite 0
   \<and> HandleSell_reprice \<lparr>name = ''AAPL'', quantity = 10, price = Finite 100\<rparr>
        (completedOrder (mkOrder Sell ''AAPL'' 10 (Finite 100)) 10) (Finite 1000)
     = \<lparr>name = ''AAPL'', quantity = 0, price = NaN\<rparr>"
  by (simp add: client_defs holding_AAPL_def buyLots_def)

section \<open>Buying at the price 0\<close>

text \<open>
  C9 as amended. A buy order at the price \<open>+0.0\<close>, with a cash balance that is not below 0
  (the comparison \<^verbatim>\<open>cashBalance < 0\<close> is false), is filled in full and leaves the
  cash balance as it was.
\<close>

theorem free_buy_fills_request:
  assumes "kind order = Buy" and "price (position order) = Finite 0"
    and "\<not> dless (cashBalance st) (Finite 0)" and "is_double (cashBalance st)"
  shows "\<exists>st'. SubmitOrder st order = Inr (quantity (position order), st') \<and>
           GetCashBalance st' = GetCashBalance st"
proof -
  let ?w = "quantity (position order)"
  from fill_zero_price [OF assms(3), of ?w] have
    "to_u32 (std_min (of_u32 ?w) (ddiv (cashBalance st) (price (position order)))) = Inr ?w"
    by (simp add: assms(2))
  from SubmitOrder_Buy [OF assms(1) this] assms(2) dsub_zero [OF assms(4)] show ?thesis
    by (simp add: GetCashBalance_def HandleBuy_cash completedOrder_def free_cost)
qed

theorem free_buy_fills_request_witness:
  "kind (mkOrder Buy ''AAPL'' 7 (Finite 0)) = Buy \<and>
   price (position (mkOrder Buy ''AAPL'' 7 (Finite 0))) = Finite 0 \<and>
   \<not> dless (cashBalance (new_BrokerClient (Finite 10000))) (Finite 0) \<and>
   is_double (cashBalance (new_BrokerClient (Finite 10000))) \<and>
   (\<exists>st'. SubmitOrder (new_BrokerClient (Finite 10000)) (mkOrder Buy ''AAPL'' 7 (Finite 0))
             = Inr (7, st') \<and>
      GetCashBalance st' = Finite 10000)"
proof -
  have h: "kind (mkOrder Buy ''AAPL'' 7 (Finite 0)) = Buy"
    "price (position (mkOrder Buy ''AAPL'' 7 (Finite 0))) = Finite 0"
    "\<not> dless (cashBalance (new_BrokerClient (Finite 10000))) (Finite 0)"
    "is_double (cashBalance (new_BrokerClient (Finite 10000)))"
    by (simp_all add: mkOrder_def new_BrokerClient_def is_double_def round64_defs)
  from free_buy_fills_request [OF h]
  have "\<exists>st'. SubmitOrder (new_BrokerClient (Finite 10000)) (mkOrder Buy ''AAPL'' 7 (Finite 0))
             = Inr (7, st') \<and>
      GetCashBalance st' = Finite 10000"
    by (simp add: mkOrder_def new_BrokerClient_def GetCashBalance_def)
  with h show ?thesis by blast
qed

text \<open>
  C9 as stated says that the order is filled whatever the cash balance, for every price
  that is 0, without a division. The quotient of cash balance and price is computed and
  decides the outcome: with a cash balance of -1 and the price \<open>+0.0\<close>, and with a cash
  balance of 10000 and the price \<open>-0.0\<close> (which also compares equal to 0), it is the
  negative infinity, \<^verbatim>\<open>std::min\<close> returns it, and its conversion to
  \<^verbatim>\<open>uint32_t\<close> is undefined.
\<close>

theorem free_buy_is_not_short_circuited:
  "SubmitOrder (new_BrokerClient (Finite (- 1))) (mkOrder Buy ''AAPL'' 7 (Finite 0))
     = Inl UndefinedConversion
   \<and> ddiv (GetCashBalance (new_BrokerClient (Finite (- 1)))) (Finite 0) = NegInf
   \<and> SubmitOrder (new_BrokerClient (Finite 10000)) (mkOrder Buy ''AAPL'' 7 NegZero)
     = Inl UndefinedConversion
   \<and> ddiv (GetCashBalance (new_BrokerClient (Finite 10000))) NegZero = NegInf"
  by (simp add: client_defs)

section \<open>GetPositions\<close>

text \<open>
  In every state the client can reach, \<^verbatim>\<open>GetPositions\<close> returns the entries of the
  portfolio, each once, in ascending (lexicographic) order of the names, and the name in
  each position is the key it is filed under.
\<close>

lemma GetPositions_in_key_order:
  assumes "reachable st"
  shows "GetPositions st =
           map (\<lambda>nm. the (map_of (portfolio st) nm))
               (sorted_list_of_set (dom (map_of (portfolio st))))
         \<and> map name (GetPositions st) = sorted_list_of_set (dom (map_of (portfolio st)))"
proof -
  from reachable_keyed_in_order [OF assms] have
    s: "sorted_wrt (<) (map fst (portfolio st))"
    and n: "\<forall>e \<in> set (portfolio st). name (snd e) = fst e"
    by (simp_all add: keyed_in_order_def)
  from s have sd: "sorted (map fst (portfolio st))" "distinct (map fst (portfolio st))"
    by (simp_all add: strict_sorted_iff)
  have "dom (map_of (portfolio st)) = set (map fst (portfolio st))"
    by (simp add: dom_map_of_conv_image_fst)
  moreover have "sorted_list_of_set (set (map fst (portfolio st))) = map fst (portfolio st)"
    using sd by (intro sorted_distinct_set_unique) simp_all
  ultimately have keys: "sorted_list_of_set (dom (map_of (portfolio st))) = map fst (portfolio st)"
    by simp
  have "map name (map snd (portfolio st)) = map fst (portfolio st)"
    using n by simp
  with keys map_the_map_of [OF sd(2)] show ?thesis
    by (simp add: GetPositions_def)
qed

lemma GetPositions_in_key_order_example:
  "reachable holding_two
   \<and> GetPositions holding_two =
       map (\<lambda>nm. the (map_of (portfolio holding_two) nm))
           (sorted_list_of_set (dom (map_of (portfolio holding_two))))
   \<and> map name (GetPositions holding_two) = sorted_list_of_set (dom (map_of (portfolio holding_two)))
   \<and> map name (GetPositions holding_two) = [''AAPL'', ''MSFT'']
   \<and> ''AAPL'' < ''MSFT''"
proof -
  have "map name (GetPositions holding_two) = [''AAPL'', ''MSFT'']"
    by (simp add: GetPositions_def holding_two_def)
  moreover have "''AAPL'' < ''MSFT''" by simp
  ultimately show ?thesis
    using GetPositions_in_key_order [OF holding_two_reachable] holding_two_reachable by blast
qed

text \<open>
  C10. The claim is that \<^verbatim>\<open>GetPositions\<close> returns exactly one position for each security
  currently held, in ascending order of the names. The order is as claimed (the lemma
  above), but the entries of the portfolio are not the securities held once a quantity
  has wrapped around (C4). With 10000 in cash, after two buys of 2147483648 AAPL at
  1/1048576 the one position returned has the quantity 0, for 4294967296 shares bought and
  none sold; after a sell order for 0 AAPL, which erases the entry (C1), no position is
  returned, and the same shares are still outstanding.
\<close>

theorem GetPositions_after_wrap_around:
  "(case SubmitOrders (new_BrokerClient (Finite 10000))
           [mkOrder Buy ''AAPL'' 2147483648 (Finite (1 / 1048576)),
            mkOrder Buy ''AAPL'' 2147483648 (Finite (1 / 1048576))] of
      Inl e \<Rightarrow> False
    | Inr st \<Rightarrow>
        GetPositions st = [\<lparr>name = ''AAPL'', quantity = 0, price = PosInf\<rparr>] \<and>
        lotTotal (buyLots st ''AAPL'') = 4294967296)
   \<and> (case SubmitOrders (new_BrokerClient (Finite 10000))
           [mkOrder Buy ''AAPL'' 2147483648 (Finite (1 / 1048576)),
            mkOrder Buy ''AAPL'' 2147483648 (Finite (1 / 1048576)),
            mkOrder Sell ''AAPL'' 0 (Finite 60)] of
      Inl e \<Rightarrow> False
    | Inr st \<Rightarrow>
        GetPositions st = [] \<and>
        lotTotal (buyLots st ''AAPL'') = 4294967296 \<and>
        map (\<lambda>order. (kind order, quantity (position order))) (GetTransactions st) =
          [(Buy, 2147483648), (Buy, 2147483648), (Sell, 0)])"
  by (simp add: client_defs lotTotal_def buyLots_def)

end
